theory Spec2Isabelle
  imports Complex_Main "HOL-Library.AList" "HOL-Library.Sublist"
begin

chapter \<open>The task orchestration engine\<close>

text \<open>
  A shallow embedding of the engine's core classes: \<open>BaseAgent\<close> (Agent.ts),
  \<open>ToolRegistry\<close>, \<open>ModelRouter\<close>, \<open>MemoryManager\<close> and \<open>Orchestrator\<close>.
  Conventions used throughout:
  \<^item> a JavaScript \<open>Map\<close> is an association list in insertion order; \<open>Map.get\<close> is
    \<^const>\<open>map_of\<close>, \<open>Map.set\<close> is \<^const>\<open>AList.update\<close> (an existing key keeps its place,
    a new key goes last), \<open>Map.delete\<close> is \<^const>\<open>AList.delete\<close>;
  \<^item> a thrown \<open>Error\<close> (a rejected promise) is \<open>Inl message\<close>, or \<open>Some message\<close>
    where the function returns nothing;
  \<^item> an object mutated in place is returned updated;
  \<^item> \<open>Date.now()\<close> and \<open>new Date()\<close> are parameters (milliseconds, as \<open>int\<close>);
  \<^item> the collaborators behind an interface (the agent's hooks, a tool's implementation,
    the model backend) are function parameters, and each call made through the interface is
    appended to a trace kept in the state, so that "is never invoked" can be stated;
  \<^item> a string is a list of characters and its length is the number of its code units.
\<close>

section \<open>Shared types\<close>

datatype task_status = pending | in_progress | completed | failed | cancelled

record task_metrics =
  duration :: int
  tokensUsed :: int
  toolCalls :: int
  memoryUsage :: int

text \<open>\<open>TaskResult\<close>; the payloads typed \<open>any\<close> are opaque strings.\<close>

record task_result =
  success :: bool
  output_value :: "string option"
  errors :: "string list option"
  artifacts :: "string list option"
  metrics :: task_metrics
  auditLog :: "string list"

text \<open>
  \<open>Task\<close>. The fields no modelled method reads (priority, the two timestamps, assignedTo,
  context) are left out; \<open>task_type\<close> is the field \<open>type\<close>, kept as a string because
  \<open>submitTask\<close> tests it for emptiness.
\<close>

record task =
  task_id :: string
  description :: string
  task_type :: string
  status :: task_status
  dependencies :: "string list option"
  result :: "task_result option"

section \<open>BaseAgent (Agent.ts)\<close>

datatype hook_call = OnInitialize | OnExecute | OnShutdown

datatype log_level = Info | Warn | Error | Debug

text \<open>
  The three abstract methods of \<open>BaseAgent\<close>, over the subclass's own state \<open>'s\<close>. Each
  returns the inner state it leaves behind; \<open>Some e\<close> (for \<open>onExecute\<close>: \<open>Inl e\<close>) is a
  rejected promise.
\<close>

record ('s, 'c) hooks =
  onInitialize :: "'s \<Rightarrow> string option \<times> 's"
  onExecute :: "task \<Rightarrow> 'c \<Rightarrow> 's \<Rightarrow> (string + task_result) \<times> 's"
  onShutdown :: "'s \<Rightarrow> string option \<times> 's"

text \<open>
  The agent object: \<open>config.name\<close>, the flag \<open>isInitialized\<close>, the subclass's state \<open>inner\<close>, the
  lines written to the logger and the trace of hook invocations.
\<close>

record 's agent =
  agent_name :: string
  isInitialized :: bool
  inner :: 's
  logged :: "(log_level \<times> string) list"
  hookCalls :: "hook_call list"

definition new_agent :: "string \<Rightarrow> 's \<Rightarrow> 's agent" where
  "new_agent nm s =
     \<lparr>agent_name = nm, isInitialized = False, inner = s, logged = [], hookCalls = []\<rparr>"

definition logger :: "log_level \<Rightarrow> string \<Rightarrow> 's agent \<Rightarrow> 's agent" where
  "logger lv msg a = a\<lparr>logged := logged a @ [(lv, msg)]\<rparr>"

definition not_initialized :: "string \<Rightarrow> string" where
  "not_initialized nm = ''Agent '' @ nm @ '' is not initialized''"

definition initialize :: "('s, 'c) hooks \<Rightarrow> 's agent \<Rightarrow> string option \<times> 's agent" where
  "initialize h a =
     (if isInitialized a then (None, a)
      else
        let a1 = logger Info (''Initializing agent: '' @ agent_name a) a;
            (r, s') = onInitialize h (inner a1);
            a2 = a1\<lparr>inner := s', hookCalls := hookCalls a1 @ [OnInitialize]\<rparr>
        in case r of
             Some e \<Rightarrow> (Some e, a2)
           | None \<Rightarrow>
               (None, logger Info (''Agent initialized: '' @ agent_name a)
                        (a2\<lparr>isInitialized := True\<rparr>)))"

definition execute ::
  "('s, 'c) hooks \<Rightarrow> task \<Rightarrow> 'c \<Rightarrow> 's agent \<Rightarrow> (string + task_result) \<times> 's agent" where
  "execute h t ctx a =
     (if \<not> isInitialized a then (Inl (not_initialized (agent_name a)), a)
      else
        let a1 = logger Info (''Executing task: '' @ description t) a;
            (r, s') = onExecute h t ctx (inner a1);
            a2 = a1\<lparr>inner := s', hookCalls := hookCalls a1 @ [OnExecute]\<rparr>
        in case r of
             Inr res \<Rightarrow>
               (Inr res, logger Info (''Task completed successfully: '' @ description t) a2)
           | Inl e \<Rightarrow> (Inl e, logger Error (''Task failed: '' @ description t) a2))"

definition shutdown :: "('s, 'c) hooks \<Rightarrow> 's agent \<Rightarrow> string option \<times> 's agent" where
  "shutdown h a =
     (if \<not> isInitialized a then (None, a)
      else
        let a1 = logger Info (''Shutting down agent: '' @ agent_name a) a;
            (r, s') = onShutdown h (inner a1);
            a2 = a1\<lparr>inner := s', hookCalls := hookCalls a1 @ [OnShutdown]\<rparr>
        in case r of
             Some e \<Rightarrow> (Some e, a2)
           | None \<Rightarrow>
               (None, logger Info (''Agent shutdown complete: '' @ agent_name a)
                        (a2\<lparr>isInitialized := False\<rparr>)))"

text \<open>
  A concrete agent for the closed theorems: its state counts the hook calls it has seen,
  and every hook succeeds.
\<close>

definition counting_hooks :: "(nat, unit) hooks" where
  "counting_hooks =
     \<lparr>onInitialize = (\<lambda>n. (None, Suc n)),
      onExecute = (\<lambda>t c n.
        (Inr \<lparr>success = True, output_value = Some (description t), errors = None, artifacts = None,
              metrics = \<lparr>duration = 0, tokensUsed = 0, toolCalls = 0, memoryUsage = 0\<rparr>,
              auditLog = []\<rparr>, Suc n)),
      onShutdown = (\<lambda>n. (None, Suc n))\<rparr>"

definition sample_task :: task where
  "sample_task =
     \<lparr>task_id = ''t1'', description = ''add input validation'',
      task_type = ''code-generation'', status = pending, dependencies = None, result = None\<rparr>"

section \<open>ToolRegistry\<close>







text \<open>\<open>Array.prototype.join\<close> on strings.\<close>

fun join :: "string \<Rightarrow> string list \<Rightarrow> string" where
  "join sep [] = []"
| "join sep [x] = x"
| "join sep (x # y # ys) = x @ sep @ join sep (y # ys)"
































section \<open>MemoryManager: the eviction sweep\<close>

text \<open>
  \<open>TaskMemory\<close>, \<open>RepoMemory\<close>, \<open>MemoryEntry\<close> and \<open>VectorStoreEntry\<close>. A \<open>Date\<close> is its
  \<open>getTime()\<close>; contexts, steps, results, audit entries and the repository summaries are
  opaque strings, since the sweep only reads keys and times.
\<close>

record task_memory =
  memory_taskId :: string
  task_context :: string
  steps :: "string list"
  results :: "(string \<times> string) list"
  audit_entries :: "string list"
  createdAt :: int
  updatedAt :: int

record repo_memory =
  repoId :: string
  repo_path :: string
  summaries :: "string list"
  lastUpdated :: int

record memory_entry =
  entry_id :: string
  entry_type :: string
  entry_key :: string
  entry_value :: string
  timestamp :: int
  ttl :: "int option"
  accessCount :: nat
  lastAccessed :: int

record vector_store_entry =
  vector_id :: string
  vector :: "rat list"
  metadata :: string
  vector_timestamp :: int

text \<open>\<open>Required<MemoryConfig>\<close>, as the constructor leaves it.\<close>

record memory_config =
  maxTaskMemory :: nat
  maxRepoMemory :: nat
  cacheTTL :: int
  enableVectorStore :: bool

record memory_manager =
  memory :: "(string \<times> memory_entry) list"
  taskMemories :: "(string \<times> task_memory) list"
  repoMemories :: "(string \<times> repo_memory) list"
  vectorStore :: "(string \<times> vector_store_entry) list"

text \<open>
  \<open>for (const [key] of toRemove) map.delete(key)\<close>.
\<close>

fun delete_all :: "('k \<times> 'v) list \<Rightarrow> ('k \<times> 'v) list \<Rightarrow> ('k \<times> 'v) list" where
  "delete_all [] al = al"
| "delete_all ((k, v) # toRemove) al = delete_all toRemove (AList.delete k al)"

text \<open>
  One block of the sweep: when the map holds more than \<open>limit\<close> entries, sort them by
  time ascending (\<open>Array.prototype.sort\<close> is stable, as \<^const>\<open>sort_key\<close> is), take the
  first \<open>length - limit\<close> (\<open>slice(0, length - limit)\<close>; the guard makes the bound
  positive) and delete each from the map.
\<close>

definition evict_oldest :: "('v \<Rightarrow> int) \<Rightarrow> nat \<Rightarrow> (string \<times> 'v) list \<Rightarrow> (string \<times> 'v) list" where
  "evict_oldest time limit al =
     (if length al > limit
      then let entries = sort_key (\<lambda>(k, v). time v) al;
               toRemove = take (length entries - limit) entries
           in delete_all toRemove al
      else al)"

text \<open>\<open>entry.ttl && now - entry.timestamp.getTime() > entry.ttl\<close>: a ttl of 0 is falsy.\<close>

definition expired :: "int \<Rightarrow> memory_entry \<Rightarrow> bool" where
  "expired now entry =
     (case ttl entry of
        None \<Rightarrow> False
      | Some life \<Rightarrow> life \<noteq> 0 \<and> now - timestamp entry > life)"

definition cleanupExpiredEntries :: "memory_config \<Rightarrow> int \<Rightarrow> memory_manager \<Rightarrow> memory_manager" where
  "cleanupExpiredEntries config now mm =
     mm\<lparr>taskMemories := evict_oldest updatedAt (maxTaskMemory config) (taskMemories mm),
        repoMemories := evict_oldest lastUpdated (maxRepoMemory config) (repoMemories mm),
        memory := filter (\<lambda>(k, entry). \<not> expired now entry) (memory mm),
        vectorStore :=
          (if enableVectorStore config
           then filter (\<lambda>(k, entry). \<not> now - vector_timestamp entry > cacheTTL config)
                  (vectorStore mm)
           else vectorStore mm)\<rparr>"

text \<open>\<open>createTaskMemory\<close> at time \<open>now\<close>.\<close>

definition createTaskMemory :: "string \<Rightarrow> string \<Rightarrow> int \<Rightarrow> memory_manager \<Rightarrow> memory_manager" where
  "createTaskMemory tid ctx now mm =
     mm\<lparr>taskMemories := AList.update tid
        \<lparr>memory_taskId = tid, task_context = ctx, steps = [], results = [], audit_entries = [],
         createdAt = now, updatedAt = now\<rparr> (taskMemories mm)\<rparr>"

definition empty_memory :: memory_manager where
  "empty_memory = \<lparr>memory = [], taskMemories = [], repoMemories = [], vectorStore = []\<rparr>"

definition small_memory_config :: memory_config where
  "small_memory_config =
     \<lparr>maxTaskMemory = 2, maxRepoMemory = 1000, cacheTTL = 3600000, enableVectorStore = False\<rparr>"

text \<open>Three task memories, created at times 30, 10 and 20.\<close>

definition three_memories :: memory_manager where
  "three_memories =
     createTaskMemory ''c'' ''ctx'' 20
       (createTaskMemory ''b'' ''ctx'' 10 (createTaskMemory ''a'' ''ctx'' 30 empty_memory))"

section \<open>ModelRouter\<close>

text \<open>
  Numbers that can become \<open>NaN\<close>: \<open>None\<close> is \<open>NaN\<close> (what arithmetic on \<open>undefined\<close>
  yields), \<open>Some r\<close> a finite number, kept exact. Every comparison with \<open>NaN\<close> is false.
\<close>

type_synonym js_number = "rat option"

definition js_add :: "js_number \<Rightarrow> js_number \<Rightarrow> js_number" where
  "js_add a b = (case (a, b) of (Some x, Some y) \<Rightarrow> Some (x + y) | _ \<Rightarrow> None)"

definition js_mul :: "js_number \<Rightarrow> js_number \<Rightarrow> js_number" where
  "js_mul a b = (case (a, b) of (Some x, Some y) \<Rightarrow> Some (x * y) | _ \<Rightarrow> None)"

definition js_greater :: "js_number \<Rightarrow> js_number \<Rightarrow> bool" where
  "js_greater a b = (case (a, b) of (Some x, Some y) \<Rightarrow> x > y | _ \<Rightarrow> False)"

definition js_less_eq :: "js_number \<Rightarrow> js_number \<Rightarrow> bool" where
  "js_less_eq a b = (case (a, b) of (Some x, Some y) \<Rightarrow> x \<le> y | _ \<Rightarrow> False)"

record model_config =
  model_name :: string
  model_type :: string
  maxTokens :: int
  supportsStreaming :: bool
  costPerToken :: "rat option"

record chat_message =
  role :: string
  content :: string

record model_request =
  messages :: "chat_message list"
  temperature :: "rat option"
  request_maxTokens :: "int option"
  stream :: "bool option"

record token_usage =
  promptTokens :: nat
  completionTokens :: nat
  totalTokens :: nat

record model_response =
  response_content :: string
  usage :: token_usage
  model :: string
  finishReason :: string

text \<open>
  What the router sends to the backend and the fields it reads off the backend's answer
  (typed \<open>any\<close> in the source): \<open>choices?.[0]?.message?.content\<close>,
  \<open>choices?.[0]?.finish_reason\<close>, \<open>usage?.prompt_tokens\<close>, \<open>usage?.completion_tokens\<close>,
  \<open>usage?.total_tokens\<close> in \<open>transformResponse\<close>, and \<open>usage.totalTokens\<close> and \<open>model\<close>
  in \<open>updateMetrics\<close>, which is handed the backend's answer itself. \<open>None\<close> is an absent
  field.
\<close>

record zai_request =
  zai_messages :: "chat_message list"
  zai_temperature :: rat
  max_tokens :: int
  zai_stream :: bool

record zai_usage =
  prompt_tokens :: "nat option"
  completion_tokens :: "nat option"
  total_tokens :: "nat option"
  usage_totalTokens :: "rat option"

record zai_response =
  choice_content :: "string option"
  choice_finish_reason :: "string option"
  zai_usage :: "zai_usage option"
  zai_model :: "string option"

text \<open>\<open>Required<ModelRouterConfig>\<close>, as the constructor leaves it.\<close>

record router_config =
  defaultModel :: string
  fallbackModels :: "string list"
  router_timeout :: int
  router_maxRetries :: int
  costBudget :: "rat option"
  rateLimit_requests :: int
  rateLimit_window :: int

record model_metrics =
  requests :: nat
  metric_tokensUsed :: js_number
  cost :: js_number
  latency :: "int list"
  metric_errors :: nat

text \<open>
  The router: \<open>models\<close>, whether \<open>zai\<close> has been created, \<open>metrics\<close>, \<open>requestTimes\<close>, and
  the trace of the calls made to \<open>zai.chat.completions.create\<close> (the model named in each).
\<close>

record model_router =
  models :: "(string \<times> model_config) list"
  zai_ready :: bool
  routerMetrics :: model_metrics
  requestTimes :: "(string \<times> int list) list"
  zaiCalls :: "string list"

definition new_router :: model_router where
  "new_router =
     \<lparr>models = [], zai_ready = False,
      routerMetrics = \<lparr>requests = 0, metric_tokensUsed = Some 0, cost = Some 0, latency = [],
                       metric_errors = 0\<rparr>,
      requestTimes = [], zaiCalls = []\<rparr>"

definition registerModel :: "model_config \<Rightarrow> model_router \<Rightarrow> model_router" where
  "registerModel modelConfig r =
     r\<lparr>models := AList.update (model_name modelConfig) modelConfig (models r)\<rparr>"

definition estimateTokenCount :: "model_request \<Rightarrow> int" where
  "estimateTokenCount request =
     (let text = join '' '' (map content (messages request))
      in \<lceil>(of_nat (length text) :: rat) / 4\<rceil>)"

text \<open>\<open>Array.from(this.models.keys())[0]\<close>: \<open>None\<close> is \<open>undefined\<close>.\<close>

definition first_key :: "(string \<times> 'v) list \<Rightarrow> string option" where
  "first_key al = (case al of [] \<Rightarrow> None | (k, v) # rest \<Rightarrow> Some k)"

text \<open>
  The two \<open>for ... of this.models\<close> loops of \<open>selectModel\<close>: each assigns the first model
  that passes its test and breaks, and leaves \<open>selectedModel\<close> alone when none passes.
\<close>

fun first_with_limit :: "int \<Rightarrow> (string \<times> model_config) list \<Rightarrow> string option" where
  "first_with_limit estimatedTokens [] = None"
| "first_with_limit estimatedTokens ((modelName, modelConfig) # rest) =
     (if maxTokens modelConfig \<ge> estimatedTokens then Some modelName
      else first_with_limit estimatedTokens rest)"

definition cost_or_zero :: "model_config \<Rightarrow> rat" where
  "cost_or_zero modelConfig = (case costPerToken modelConfig of Some c \<Rightarrow> c | None \<Rightarrow> 0)"

fun first_within_budget ::
  "js_number \<Rightarrow> rat \<Rightarrow> int \<Rightarrow> (string \<times> model_config) list \<Rightarrow> string option" where
  "first_within_budget spent budget estimatedTokens [] = None"
| "first_within_budget spent budget estimatedTokens ((modelName, modelConfig) # rest) =
     (if js_less_eq (js_add spent (Some (of_int estimatedTokens * cost_or_zero modelConfig)))
           (Some budget)
      then Some modelName
      else first_within_budget spent budget estimatedTokens rest)"

text \<open>
  The test of the cost block for the model selected so far: a budget is configured (and is
  not 0, which is falsy) and the running cost plus the estimated cost of this request
  on that model exceeds it. A model that is not registered costs 0.
\<close>

definition over_budget :: "router_config \<Rightarrow> model_router \<Rightarrow> int \<Rightarrow> string option \<Rightarrow> bool" where
  "over_budget config r estimatedTokens selectedModel =
     (case costBudget config of
        None \<Rightarrow> False
      | Some budget \<Rightarrow>
          budget \<noteq> 0 \<and>
          (let modelCost =
                 (case selectedModel of
                    None \<Rightarrow> 0
                  | Some nm \<Rightarrow> (case map_of (models r) nm of
                                 None \<Rightarrow> 0
                               | Some modelConfig \<Rightarrow> cost_or_zero modelConfig));
               estimatedCost = of_int estimatedTokens * modelCost
           in js_greater (js_add (cost (routerMetrics r)) (Some estimatedCost)) (Some budget)))"

text \<open>\<open>selectModel\<close>; \<open>None\<close> is the name \<open>undefined\<close>.\<close>

definition selectModel :: "router_config \<Rightarrow> model_request \<Rightarrow> model_router \<Rightarrow> string option" where
  "selectModel config request r =
     (let defaultModelConfig = map_of (models r) (defaultModel config);
          selected0 =
            (case defaultModelConfig of
               Some d \<Rightarrow> Some (defaultModel config)
             | None \<Rightarrow>
                 (case fallbackModels config of
                    [] \<Rightarrow> first_key (models r)
                  | f # fs \<Rightarrow> if f \<noteq> [] then Some f else first_key (models r)));
          estimatedTokens = estimateTokenCount request;
          selected1 =
            (case defaultModelConfig of
               None \<Rightarrow> selected0
             | Some d \<Rightarrow>
                 if estimatedTokens > maxTokens d
                 then (case first_with_limit estimatedTokens (models r) of
                         Some modelName \<Rightarrow> Some modelName
                       | None \<Rightarrow> selected0)
                 else selected0)
      in if over_budget config r estimatedTokens selected1
         then (case costBudget config of
                 None \<Rightarrow> selected1
               | Some budget \<Rightarrow>
                   (case first_within_budget (cost (routerMetrics r)) budget estimatedTokens
                           (models r) of
                      Some modelName \<Rightarrow> Some modelName
                    | None \<Rightarrow> selected1))
         else selected1)"

definition prepareZAIRequest :: "model_request \<Rightarrow> model_config \<Rightarrow> zai_request" where
  "prepareZAIRequest request modelConfig =
     \<lparr>zai_messages = messages request,
      zai_temperature = (case temperature request of
                           None \<Rightarrow> 7 / 10
                         | Some t \<Rightarrow> if t = 0 then 7 / 10 else t),
      max_tokens = min (case request_maxTokens request of
                          None \<Rightarrow> 2048
                        | Some n \<Rightarrow> if n = 0 then 2048 else n) (maxTokens modelConfig),
      zai_stream = (case stream request of None \<Rightarrow> False | Some b \<Rightarrow> b)\<rparr>"

text \<open>
  The backend: \<open>backend modelName zaiRequest attempt\<close> is what the race between
  \<open>zai.chat.completions.create\<close> and the timeout settles to on that attempt, \<open>Inl\<close> a
  rejection (the timeout's "Request timeout" included).
\<close>

type_synonym backend = "string \<Rightarrow> zai_request \<Rightarrow> nat \<Rightarrow> string + zai_response"

text \<open>
  The loop of \<open>executeWithRetry\<close> from attempt \<open>attempt\<close> with \<open>remaining\<close> attempts left;
  the waits between attempts take time only. It returns the trace extended by its calls.
  With no attempt at all the method throws the unassigned \<open>lastError\<close>, \<open>undefined\<close>.
\<close>

fun retry_loop ::
  "backend \<Rightarrow> string \<Rightarrow> zai_request \<Rightarrow> nat \<Rightarrow> nat \<Rightarrow> string \<Rightarrow> string list \<Rightarrow>
   (string + zai_response) \<times> string list" where
  "retry_loop backend modelName zaiRequest attempt 0 lastError trace = (Inl lastError, trace)"
| "retry_loop backend modelName zaiRequest attempt (Suc remaining) lastError trace =
     (case backend modelName zaiRequest attempt of
        Inr res \<Rightarrow> (Inr res, trace @ [modelName])
      | Inl e \<Rightarrow>
          retry_loop backend modelName zaiRequest (Suc attempt) remaining e
            (trace @ [modelName]))"

definition executeWithRetry ::
  "backend \<Rightarrow> router_config \<Rightarrow> string \<Rightarrow> zai_request \<Rightarrow> string list \<Rightarrow>
   (string + zai_response) \<times> string list" where
  "executeWithRetry backend config modelName zaiRequest trace =
     retry_loop backend modelName zaiRequest 1 (nat (router_maxRetries config)) ''undefined''
       trace"

definition transformResponse :: "zai_response \<Rightarrow> string \<Rightarrow> model_response" where
  "transformResponse zaiResponse modelName =
     \<lparr>response_content = (case choice_content zaiResponse of None \<Rightarrow> [] | Some c \<Rightarrow> c),
      usage =
        \<lparr>promptTokens = (case zai_usage zaiResponse of
                           None \<Rightarrow> 0
                         | Some u \<Rightarrow> (case prompt_tokens u of None \<Rightarrow> 0 | Some n \<Rightarrow> n)),
         completionTokens = (case zai_usage zaiResponse of
                               None \<Rightarrow> 0
                             | Some u \<Rightarrow> (case completion_tokens u of None \<Rightarrow> 0 | Some n \<Rightarrow> n)),
         totalTokens = (case zai_usage zaiResponse of
                          None \<Rightarrow> 0
                        | Some u \<Rightarrow> (case total_tokens u of None \<Rightarrow> 0 | Some n \<Rightarrow> n))\<rparr>,
      model = modelName,
      finishReason = (case choice_finish_reason zaiResponse of
                        None \<Rightarrow> ''stop''
                      | Some f \<Rightarrow> if f = [] then ''stop'' else f)\<rparr>"

text \<open>
  \<open>checkRateLimit\<close>: drop the times outside the window from every list, throw if some
  list has reached the limit (the first such, in map order), else record \<open>now\<close> under
  \<open>config.defaultModel\<close>. The cleaned lists are kept on both paths.
\<close>

definition in_window :: "router_config \<Rightarrow> int \<Rightarrow> int list \<Rightarrow> int list" where
  "in_window config now stamps =
     (let windowStart = now - rateLimit_window config
      in filter (\<lambda>time. time > windowStart) stamps)"

definition checkRateLimit ::
  "router_config \<Rightarrow> int \<Rightarrow> model_router \<Rightarrow> string option \<times> model_router" where
  "checkRateLimit config now r =
     (let cleaned = map (\<lambda>(m, stamps). (m, in_window config now stamps)) (requestTimes r)
      in case find (\<lambda>(m, stamps). int (length stamps) \<ge> rateLimit_requests config) cleaned of
           Some (m, stamps) \<Rightarrow>
             (Some (''Rate limit exceeded for model '' @ m), r\<lparr>requestTimes := cleaned\<rparr>)
         | None \<Rightarrow>
             let modelTimes = (case map_of cleaned (defaultModel config) of
                                 None \<Rightarrow> []
                               | Some stamps \<Rightarrow> stamps)
             in (None, r\<lparr>requestTimes :=
                           AList.update (defaultModel config) (modelTimes @ [now]) cleaned\<rparr>))"

text \<open>
  \<open>updateMetrics\<close>, applied to the backend's answer. Reading \<open>response.usage.totalTokens\<close>
  throws when \<open>usage\<close> is absent, after \<open>requests\<close> has been incremented; an absent
  \<open>totalTokens\<close> makes the sums \<open>NaN\<close>.
\<close>

definition updateMetrics ::
  "zai_response \<Rightarrow> int \<Rightarrow> model_router \<Rightarrow> string option \<times> model_router" where
  "updateMetrics response elapsed r =
     (let m = routerMetrics r;
          m1 = m\<lparr>requests := requests m + 1\<rparr>
      in case zai_usage response of
           None \<Rightarrow>
             (Some ''Cannot read properties of undefined (reading totalTokens)'',
              r\<lparr>routerMetrics := m1\<rparr>)
         | Some u \<Rightarrow>
             let m2 = m1\<lparr>metric_tokensUsed :=
                          js_add (metric_tokensUsed m1) (usage_totalTokens u),
                        latency := latency m1 @ [elapsed]\<rparr>;
                 m3 = (case (case zai_model response of
                               None \<Rightarrow> None
                             | Some nm \<Rightarrow> map_of (models r) nm) of
                         None \<Rightarrow> m2
                       | Some modelConfig \<Rightarrow>
                           (case costPerToken modelConfig of
                              None \<Rightarrow> m2
                            | Some c \<Rightarrow>
                                if c = 0 then m2
                                else m2\<lparr>cost := js_add (cost m2)
                                       (js_mul (usage_totalTokens u) (Some c))\<rparr>));
                 m4 = (if length (latency m3) > 100
                       then m3\<lparr>latency := drop (length (latency m3) - 100) (latency m3)\<rparr>
                       else m3)
             in (None, r\<lparr>routerMetrics := m4\<rparr>))"

definition count_error :: "model_router \<Rightarrow> model_router" where
  "count_error r =
     r\<lparr>routerMetrics := (routerMetrics r)\<lparr>metric_errors := metric_errors (routerMetrics r) + 1\<rparr>\<rparr>"

text \<open>
  \<open>generateResponse\<close>. \<open>startTime\<close>, \<open>now\<close> and \<open>endTime\<close> are the three readings of
  \<open>Date.now()\<close>: at entry, inside \<open>checkRateLimit\<close>, and after the backend has answered.
  Everything thrown inside the \<open>try\<close> passes through the \<open>catch\<close>, which counts an error
  and rethrows.
\<close>

definition generateResponse ::
  "backend \<Rightarrow> router_config \<Rightarrow> model_request \<Rightarrow> int \<Rightarrow> int \<Rightarrow> int \<Rightarrow> model_router \<Rightarrow>
   (string + model_response) \<times> model_router" where
  "generateResponse backend config request startTime now endTime r =
     (if \<not> zai_ready r then (Inl ''ModelRouter not initialized'', r)
      else
        case checkRateLimit config now r of
          (Some e, r1) \<Rightarrow> (Inl e, count_error r1)
        | (None, r1) \<Rightarrow>
            (case selectModel config request r1 of
               None \<Rightarrow> (Inl ''Model not found: undefined'', count_error r1)
             | Some modelName \<Rightarrow>
                 (case map_of (models r1) modelName of
                    None \<Rightarrow> (Inl (''Model not found: '' @ modelName), count_error r1)
                  | Some modelConfig \<Rightarrow>
                      let zaiRequest = prepareZAIRequest request modelConfig;
                          (answer, trace) =
                            executeWithRetry backend config modelName zaiRequest (zaiCalls r1);
                          r2 = r1\<lparr>zaiCalls := trace\<rparr>
                      in case answer of
                           Inl e \<Rightarrow> (Inl e, count_error r2)
                         | Inr response \<Rightarrow>
                             (case updateMetrics response (endTime - startTime) r2 of
                                (Some e, r3) \<Rightarrow> (Inl e, count_error r3)
                              | (None, r3) \<Rightarrow>
                                  (Inr (transformResponse response modelName), r3)))))"

text \<open>
  A router with a small default model and a larger one registered after it, a request of
  eight characters (two estimated tokens), and a backend that answers at once.
\<close>

definition small_model :: model_config where
  "small_model =
     \<lparr>model_name = ''small'', model_type = ''oss'', maxTokens = 1, supportsStreaming = True,
      costPerToken = None\<rparr>"

definition large_model :: model_config where
  "large_model =
     \<lparr>model_name = ''large'', model_type = ''oss'', maxTokens = 8192,
      supportsStreaming = True, costPerToken = Some 1\<rparr>"

definition two_models :: model_router where
  "two_models = (registerModel large_model (registerModel small_model new_router))
     \<lparr>zai_ready := True\<rparr>"

definition plain_config :: router_config where
  "plain_config =
     \<lparr>defaultModel = ''small'', fallbackModels = [''code-llama'', ''starcoder''],
      router_timeout = 30000, router_maxRetries = 3, costBudget = None,
      rateLimit_requests = 60, rateLimit_window = 60000\<rparr>"


definition eight_chars :: model_request where
  "eight_chars =
     \<lparr>messages = [\<lparr>role = ''user'', content = ''12345678''\<rparr>], temperature = None,
      request_maxTokens = None, stream = None\<rparr>"

definition echo_backend :: backend where
  "echo_backend modelName zaiRequest attempt =
     Inr \<lparr>choice_content = Some ''ok'', choice_finish_reason = Some ''stop'',
          zai_usage = Some \<lparr>prompt_tokens = Some 2, completion_tokens = Some 1,
                            total_tokens = Some 3, usage_totalTokens = None\<rparr>,
          zai_model = Some modelName\<rparr>"

text \<open>A limit of one request per window, and the router after one admitted request.\<close>

definition tight_config :: router_config where
  "tight_config = plain_config\<lparr>rateLimit_requests := 1\<rparr>"

definition after_one_request :: model_router where
  "after_one_request =
     snd (generateResponse echo_backend tight_config eight_chars 1000 1000 1005 two_models)"

section \<open>Orchestrator\<close>

text \<open>
  The scheduler's state: the map \<open>tasks\<close>, the set \<open>runningTasks\<close> (in insertion order,
  without duplicates) and the activations of \<open>executeTask\<close> that are suspended at
  \<open>await this.executeWithRetry(taskId)\<close>, each with the \<open>task\<close> object it captured before
  the await. \<open>emit\<close> reaches listeners that only log (\<open>setupEventHandlers\<close>); events are
  not part of the state.
\<close>

record orchestrator =
  tasks :: "(string \<times> task) list"
  runningTasks :: "string list"
  suspended :: "(string \<times> task) list"

definition new_orchestrator :: orchestrator where
  "new_orchestrator = \<lparr>tasks = [], runningTasks = [], suspended = []\<rparr>"

text \<open>
  \<open>executeTask\<close> up to its first \<open>await\<close>, which runs synchronously inside the caller:
  a missing task rejects the promise (both callers catch and log it), a task that is
  already running returns, otherwise the id joins \<open>runningTasks\<close>, the stored task becomes
  \<open>in_progress\<close> and the activation is suspended.
\<close>

definition executeTask :: "string \<Rightarrow> orchestrator \<Rightarrow> orchestrator" where
  "executeTask taskId st =
     (case map_of (tasks st) taskId of
        None \<Rightarrow> st
      | Some t \<Rightarrow>
          if taskId \<in> set (runningTasks st) then st
          else st\<lparr>runningTasks := runningTasks st @ [taskId],
                  tasks := AList.update taskId (t\<lparr>status := in_progress\<rparr>) (tasks st),
                  suspended := suspended st @ [(taskId, t)]\<rparr>)"

definition dependenciesMet :: "(string \<times> task) list \<Rightarrow> task \<Rightarrow> bool" where
  "dependenciesMet table t =
     (case dependencies t of
        None \<Rightarrow> True
      | Some deps \<Rightarrow>
          list_all (\<lambda>depId. case map_of table depId of
                              None \<Rightarrow> False
                            | Some depTask \<Rightarrow> status depTask = completed) deps)"

text \<open>\<open>maxConcurrentTasks\<close> is the first argument of the functions that read it.\<close>

definition processNextTask :: "nat \<Rightarrow> orchestrator \<Rightarrow> orchestrator" where
  "processNextTask maxConcurrentTasks st =
     (if length (runningTasks st) \<ge> maxConcurrentTasks then st
      else
        case find (\<lambda>(taskId, t). status t = pending \<and> taskId \<notin> set (runningTasks st) \<and>
                                   dependenciesMet (tasks st) t) (tasks st) of
          None \<Rightarrow> st
        | Some (taskId, t) \<Rightarrow> executeTask taskId st)"

text \<open>
  How the awaited \<open>executeWithRetry\<close> settles: with the agent's result, or with the last
  error once the attempts are used up (a timeout included).
\<close>

datatype outcome = Resolved task_result | Rejected string

text \<open>
  The rest of \<open>executeTask\<close>, run when the await settles: the \<open>try\<close> stores the completed
  task, the \<open>catch\<close> the failed one, both built from the captured \<open>task\<close>; the \<open>finally\<close>
  frees the slot and calls \<open>processNextTask\<close>.
\<close>

definition executeTask_settled ::
  "nat \<Rightarrow> string \<Rightarrow> task \<Rightarrow> outcome \<Rightarrow> orchestrator \<Rightarrow> orchestrator" where
  "executeTask_settled maxConcurrentTasks taskId t settled st =
     (let stored =
            (case settled of
               Resolved res \<Rightarrow> t\<lparr>status := completed, result := Some res\<rparr>
             | Rejected msg \<Rightarrow>
                 t\<lparr>status := failed,
                   result := Some \<lparr>success = False, output_value = None, errors = Some [msg],
                                   artifacts = None,
                                   metrics = \<lparr>duration = 0, tokensUsed = 0, toolCalls = 0,
                                              memoryUsage = 0\<rparr>,
                                   auditLog = []\<rparr>\<rparr>);
          st1 = st\<lparr>tasks := AList.update taskId stored (tasks st),
                   runningTasks := removeAll taskId (runningTasks st)\<rparr>
      in processNextTask maxConcurrentTasks st1)"

definition submitTask :: "nat \<Rightarrow> task \<Rightarrow> orchestrator \<Rightarrow> (string + string) \<times> orchestrator" where
  "submitTask maxConcurrentTasks t st =
     (if description t = [] \<or> task_type t = []
      then (Inl ''Task must have description and type'', st)
      else
        let st1 = st\<lparr>tasks := AList.update (task_id t) t (tasks st)\<rparr>;
            st2 = (if length (runningTasks st1) < maxConcurrentTasks
                   then executeTask (task_id t) st1 else st1)
        in (Inr (task_id t), st2))"

definition cancelTask :: "string \<Rightarrow> orchestrator \<Rightarrow> bool \<times> orchestrator" where
  "cancelTask taskId st =
     (case map_of (tasks st) taskId of
        None \<Rightarrow> (False, st)
      | Some t \<Rightarrow>
          if status t = in_progress then (False, st)
          else (True, st\<lparr>tasks := AList.update taskId (t\<lparr>status := cancelled\<rparr>) (tasks st)\<rparr>))"

text \<open>
  What can happen to the scheduler: a call of \<open>submitTask\<close>, a call of \<open>cancelTask\<close>, or
  the awaited execution of a running task settling. Each is one uninterrupted block of
  JavaScript. Settling a task that has no suspended activation is no event at all and
  leaves the state as it is.
\<close>

datatype event = Submit task | Settle string outcome | Cancel string

definition step :: "nat \<Rightarrow> orchestrator \<Rightarrow> event \<Rightarrow> orchestrator" where
  "step maxConcurrentTasks st e =
     (case e of
        Submit t \<Rightarrow> snd (submitTask maxConcurrentTasks t st)
      | Settle taskId settled \<Rightarrow>
          (case map_of (suspended st) taskId of
             None \<Rightarrow> st
           | Some t \<Rightarrow>
               executeTask_settled maxConcurrentTasks taskId t settled
                 (st\<lparr>suspended := AList.delete taskId (suspended st)\<rparr>))
      | Cancel taskId \<Rightarrow> snd (cancelTask taskId st))"

definition run :: "nat \<Rightarrow> event list \<Rightarrow> orchestrator" where
  "run maxConcurrentTasks events = foldl (step maxConcurrentTasks) new_orchestrator events"

text \<open>The status of a task in the table; \<open>None\<close> when the id is unknown.\<close>

definition status_of :: "orchestrator \<Rightarrow> string \<Rightarrow> task_status option" where
  "status_of st taskId = map_option status (map_of (tasks st) taskId)"

definition count_in_progress :: "orchestrator \<Rightarrow> nat" where
  "count_in_progress st = length (filter (\<lambda>(taskId, t). status t = in_progress) (tasks st))"




definition submitted_idle :: "event \<Rightarrow> bool" where
  "submitted_idle e =
     (case e of
        Submit t \<Rightarrow> status t \<noteq> in_progress
      | Settle taskId settled \<Rightarrow> True
      | Cancel taskId \<Rightarrow> True)"

text \<open>Tasks and a result for the closed theorems.\<close>

definition finished :: task_result where
  "finished =
     \<lparr>success = True, output_value = Some ''done'', errors = None, artifacts = None,
      metrics = \<lparr>duration = 12, tokensUsed = 0, toolCalls = 0, memoryUsage = 0\<rparr>,
      auditLog = []\<rparr>"

definition task_a :: task where
  "task_a =
     \<lparr>task_id = ''a'', description = ''build the parser'', task_type = ''code-generation'',
      status = pending, dependencies = None, result = None\<rparr>"

definition task_b :: task where
  "task_b =
     \<lparr>task_id = ''b'', description = ''test the parser'', task_type = ''testing'',
      status = pending, dependencies = Some [''a''], result = None\<rparr>"

definition task_c :: task where
  "task_c =
     \<lparr>task_id = ''c'', description = ''document the parser'', task_type = ''documentation'',
      status = in_progress, dependencies = None, result = None\<rparr>"

text \<open>
  Invariants of the scheduler used in the proofs: the concurrency ceiling on
  \<open>runningTasks\<close>, that every suspended activation belongs to a task marked
  \<open>in_progress\<close>, and that every task marked \<open>in_progress\<close> holds a slot.
\<close>

definition slots_bounded :: "nat \<Rightarrow> orchestrator \<Rightarrow> bool" where
  "slots_bounded k st \<longleftrightarrow> distinct (runningTasks st) \<and> length (runningTasks st) \<le> k"


definition in_progress_running :: "orchestrator \<Rightarrow> bool" where
  "in_progress_running st \<longleftrightarrow>
     (\<forall>taskId t. map_of (tasks st) taskId = Some t \<longrightarrow> status t = in_progress \<longrightarrow>
        taskId \<in> set (runningTasks st))"

chapter \<open>Verification\<close>

section \<open>BaseAgent lifecycle\<close>

lemma shutdown_keeps_name: "agent_name (snd (shutdown h a)) = agent_name a"
  by (simp add: shutdown_def logger_def Let_def split: prod.splits option.splits)

lemma shutdown_clears_flag:
  "fst (shutdown h a) = None \<Longrightarrow> \<not> isInitialized (snd (shutdown h a))"
  by (auto simp add: shutdown_def logger_def Let_def split: prod.splits option.splits if_splits)

text \<open>
  C9. \<open>initialize\<close> on an agent that is already initialized, and \<open>shutdown\<close> on an agent
  that is not initialized, return normally and leave the whole agent as it was: the
  subclass state, the log and the trace of hook invocations are unchanged, so neither
  \<open>onInitialize\<close> nor \<open>onShutdown\<close> ran.
\<close>

theorem lifecycle_idempotent:
  "(isInitialized a \<longrightarrow> initialize h a = (None, a)) \<and>
   (\<not> isInitialized a \<longrightarrow> shutdown h a = (None, a))"
  by (simp add: initialize_def shutdown_def)

theorem lifecycle_idempotent_witness:
  "initialize counting_hooks (snd (initialize counting_hooks (new_agent ''coder'' 0))) =
     (None, snd (initialize counting_hooks (new_agent ''coder'' 0))) \<and>
   hookCalls (snd (initialize counting_hooks
     (snd (initialize counting_hooks (new_agent ''coder'' 0))))) = [OnInitialize] \<and>
   shutdown counting_hooks (new_agent ''coder'' 0) = (None, new_agent ''coder'' 0)"
  using lifecycle_idempotent [of "snd (initialize counting_hooks (new_agent ''coder'' 0))"
      counting_hooks]
    lifecycle_idempotent [of "new_agent ''coder'' 0" counting_hooks]
  by (simp add: initialize_def new_agent_def counting_hooks_def logger_def)

text \<open>
  C5, as the code has it. The agent keeps one flag, \<open>isInitialized\<close>, which \<open>shutdown\<close>
  sets back to false, so the class has no state "shut down" of its own: \<open>execute\<close> before
  \<open>initialize\<close> fails with "Agent <name> is not initialized", and \<open>execute\<close> after a
  \<open>shutdown\<close> that returned normally fails with that same message.
\<close>

theorem execute_guard:
  "(\<not> isInitialized a \<longrightarrow> execute h t c a = (Inl (not_initialized (agent_name a)), a)) \<and>
   (fst (shutdown h a) = None \<longrightarrow>
      fst (execute h t c (snd (shutdown h a))) = Inl (not_initialized (agent_name a)))"
  using shutdown_clears_flag [of h a] shutdown_keeps_name [of h a]
  by (auto simp add: execute_def)

theorem execute_guard_witness:
  "execute counting_hooks sample_task () (new_agent ''coder'' 0) =
     (Inl ''Agent coder is not initialized'', new_agent ''coder'' 0) \<and>
   fst (shutdown counting_hooks (snd (initialize counting_hooks (new_agent ''coder'' 0)))) = None \<and>
   fst (execute counting_hooks sample_task ()
     (snd (shutdown counting_hooks (snd (initialize counting_hooks (new_agent ''coder'' 0)))))) =
     Inl ''Agent coder is not initialized''"
  using execute_guard [of "new_agent ''coder'' 0" counting_hooks sample_task "()"]
    execute_guard [of "snd (initialize counting_hooks (new_agent ''coder'' 0))" counting_hooks
      sample_task "()"]
  by (simp add: initialize_def shutdown_def new_agent_def counting_hooks_def logger_def
      not_initialized_def)

text \<open>
  C5, as the claim states it, fails: after \<open>initialize\<close> and \<open>shutdown\<close> the error of
  \<open>execute\<close> is the error of \<open>execute\<close> on a fresh agent, character for character. No
  "already shut down" condition exists that would tell the two apart.
\<close>

theorem execute_after_shutdown_counterexample:
  "fst (execute counting_hooks sample_task ()
     (snd (shutdown counting_hooks (snd (initialize counting_hooks (new_agent ''coder'' 0)))))) =
     Inl ''Agent coder is not initialized'' \<and>
   fst (execute counting_hooks sample_task () (new_agent ''coder'' 0)) =
     Inl ''Agent coder is not initialized''"
  by (simp add: execute_def shutdown_def initialize_def new_agent_def counting_hooks_def
      logger_def not_initialized_def)

section \<open>ToolRegistry: validation before execution\<close>











section \<open>ToolRegistry: metrics of a rejected call\<close>



section \<open>MemoryManager: eviction of the least recently updated task memory\<close>

lemma sorted_head_min:
  assumes "al \<noteq> []"
  shows "\<exists>x rest. sort_key f al = x # rest \<and> x \<in> set al \<and> (\<forall>y \<in> set al. f x \<le> f y)"
proof -
  from assms have "sort_key f al \<noteq> []" by (metis length_0_conv length_sort)
  then obtain x rest where eq: "sort_key f al = x # rest"
    by (cases "sort_key f al") auto
  have "sorted (map f (sort_key f al))" by simp
  with eq have "\<forall>y \<in> set rest. f x \<le> f y" by auto
  moreover have "set (x # rest) = set al" using eq by (metis set_sort)
  ultimately show ?thesis using eq by auto
qed

lemma length_delete_distinct:
  "distinct (map fst al) \<Longrightarrow> (k, v) \<in> set al \<Longrightarrow>
   Suc (length (AList.delete k al)) = length al"
proof (induction al)
  case Nil
  then show ?case by simp
next
  case (Cons a al)
  show ?case
  proof (cases "fst a = k")
    case True
    with Cons.prems have "k \<notin> fst ` set al" by auto
    then have "AList.delete k al = al" by (simp add: delete_id)
    with True show ?thesis by (cases a) simp
  next
    case False
    with Cons show ?thesis by (cases a) auto
  qed
qed

text \<open>
  C8. When the store holds \<open>maxTaskMemory + 1\<close> task memories whose \<open>updatedAt\<close> times are
  pairwise distinct, one sweep removes the entry \<open>k\<close> whose time is strictly below all
  the others and nothing else: the map afterwards is the old one with \<open>k\<close> deleted, it
  has \<open>maxTaskMemory\<close> entries, \<open>k\<close> is absent and every other key maps to what it mapped
  to before.
\<close>

theorem oldest_task_memory_evicted:
  assumes "length (taskMemories mm) = maxTaskMemory config + 1"
    and "distinct (map fst (taskMemories mm))"
    and "distinct (map (\<lambda>(k, v). updatedAt v) (taskMemories mm))"
  shows "\<exists>k v. (k, v) \<in> set (taskMemories mm) \<and>
           (\<forall>(k', v') \<in> set (taskMemories mm). k' \<noteq> k \<longrightarrow> updatedAt v < updatedAt v') \<and>
           taskMemories (cleanupExpiredEntries config now mm) =
             AList.delete k (taskMemories mm) \<and>
           length (taskMemories (cleanupExpiredEntries config now mm)) =
             maxTaskMemory config \<and>
           map_of (taskMemories (cleanupExpiredEntries config now mm)) k = None \<and>
           (\<forall>k'. k' \<noteq> k \<longrightarrow>
              map_of (taskMemories (cleanupExpiredEntries config now mm)) k' =
              map_of (taskMemories mm) k')"
proof -
  let ?al = "taskMemories mm"
  let ?f = "\<lambda>(k, v). updatedAt v"
  from assms(1) have ne: "?al \<noteq> []" by auto
  from sorted_head_min [OF ne, of ?f] obtain x rest where
    eq: "sort_key ?f ?al = x # rest" and mem: "x \<in> set ?al"
    and le: "\<forall>y \<in> set ?al. ?f x \<le> ?f y"
    by blast
  obtain k v where x: "x = (k, v)" by (cases x)
  have strict: "updatedAt v < updatedAt v'" if "(k', v') \<in> set ?al" "k' \<noteq> k" for k' v'
  proof -
    from that mem x have "(k', v') \<noteq> (k, v)" by auto
    with assms(3) that(1) mem x have "?f (k', v') \<noteq> ?f (k, v)"
      by (metis distinct_map inj_onD)
    moreover from le that(1) x have "?f (k, v) \<le> ?f (k', v')" by blast
    ultimately show ?thesis by simp
  qed
  have len: "length (sort_key ?f ?al) - maxTaskMemory config = 1"
    using assms(1) by simp
  have "evict_oldest updatedAt (maxTaskMemory config) ?al = AList.delete k ?al"
    using assms(1) eq x len by (simp add: evict_oldest_def Let_def)
  then have run: "taskMemories (cleanupExpiredEntries config now mm) = AList.delete k ?al"
    by (simp add: cleanupExpiredEntries_def)
  have size: "length (AList.delete k ?al) = maxTaskMemory config"
    using length_delete_distinct [OF assms(2), of k v] mem x assms(1) by simp
  show ?thesis using mem x strict run size
    by (auto simp add: delete_conv')
qed

theorem oldest_task_memory_evicted_witness:
  "length (taskMemories three_memories) = maxTaskMemory small_memory_config + 1 \<and>
   map fst (taskMemories three_memories) = [''a'', ''b'', ''c''] \<and>
   map (\<lambda>(k, v). updatedAt v) (taskMemories three_memories) = [30, 10, 20] \<and>
   map fst (taskMemories (cleanupExpiredEntries small_memory_config 100 three_memories)) =
     [''a'', ''c''] \<and>
   (\<exists>k v. (k, v) \<in> set (taskMemories three_memories) \<and>
      taskMemories (cleanupExpiredEntries small_memory_config 100 three_memories) =
        AList.delete k (taskMemories three_memories))"
proof -
  have tms: "taskMemories three_memories =
    [(''a'', \<lparr>memory_taskId = ''a'', task_context = ''ctx'', steps = [], results = [],
             audit_entries = [], createdAt = 30, updatedAt = 30\<rparr>),
     (''b'', \<lparr>memory_taskId = ''b'', task_context = ''ctx'', steps = [], results = [],
             audit_entries = [], createdAt = 10, updatedAt = 10\<rparr>),
     (''c'', \<lparr>memory_taskId = ''c'', task_context = ''ctx'', steps = [], results = [],
             audit_entries = [], createdAt = 20, updatedAt = 20\<rparr>)]"
    by (simp add: three_memories_def createTaskMemory_def empty_memory_def)
  have h1: "length (taskMemories three_memories) = maxTaskMemory small_memory_config + 1"
    by (simp add: tms small_memory_config_def)
  have h2: "distinct (map fst (taskMemories three_memories))"
    by (simp add: tms)
  have h3: "distinct (map (\<lambda>(k, v). updatedAt v) (taskMemories three_memories))"
    by (simp add: tms)
  have run: "map fst (taskMemories
      (cleanupExpiredEntries small_memory_config 100 three_memories)) = [''a'', ''c'']"
    by (simp add: cleanupExpiredEntries_def evict_oldest_def tms small_memory_config_def
        AList.delete_eq)
  from oldest_task_memory_evicted [OF h1 h2 h3, of 100]
  have "\<exists>k v. (k, v) \<in> set (taskMemories three_memories) \<and>
      taskMemories (cleanupExpiredEntries small_memory_config 100 three_memories) =
        AList.delete k (taskMemories three_memories)"
    by blast
  with h1 run show ?thesis by (simp add: tms)
qed

section \<open>ModelRouter: model selection\<close>







section \<open>ModelRouter: the rate limit\<close>

lemma find_Some_mem: "find P xs = Some x \<Longrightarrow> x \<in> set xs \<and> P x"
  by (induction xs) (auto split: if_splits)

lemma generateResponse_requestTimes:
  assumes "zai_ready r" and "checkRateLimit config now r = (None, r1)"
  shows "requestTimes (snd (generateResponse backend config request startTime now endTime r)) =
         requestTimes r1"
  using assms
  by (auto simp add: generateResponse_def count_error_def updateMetrics_def Let_def
      split: option.splits sum.splits prod.splits)

lemma generateResponse_rejected:
  assumes "zai_ready r" and "checkRateLimit config now r = (Some e, r1)"
  shows "generateResponse backend config request startTime now endTime r =
         (Inl e, count_error r1)"
  using assms by (simp add: generateResponse_def)

lemma checkRateLimit_reached:
  assumes "\<exists>(m, stamps) \<in> set (requestTimes r).
             rateLimit_requests config \<le> int (length (in_window config now stamps))"
  shows "\<exists>m stamps. (m, stamps) \<in> set (requestTimes r) \<and>
     rateLimit_requests config \<le> int (length (in_window config now stamps)) \<and>
     checkRateLimit config now r =
       (Some (''Rate limit exceeded for model '' @ m),
        r\<lparr>requestTimes :=
            map (\<lambda>(m, stamps). (m, in_window config now stamps)) (requestTimes r)\<rparr>)"
proof -
  let ?cleaned = "map (\<lambda>(m, stamps). (m, in_window config now stamps)) (requestTimes r)"
  let ?P = "\<lambda>(m, stamps). int (length stamps) \<ge> rateLimit_requests config"
  from assms obtain m0 s0 where "(m0, s0) \<in> set (requestTimes r)"
    "rateLimit_requests config \<le> int (length (in_window config now s0))"
    by auto
  then have "(m0, in_window config now s0) \<in> set ?cleaned" "?P (m0, in_window config now s0)"
    by force+
  then have "\<exists>x. x \<in> set ?cleaned \<and> ?P x" by blast
  then have "find ?P ?cleaned \<noteq> None" by (simp only: find_None_iff not_not)
  then obtain m c where f: "find ?P ?cleaned = Some (m, c)"
    by (cases "find ?P ?cleaned") auto
  then have "(m, c) \<in> set ?cleaned" "?P (m, c)"
    using find_Some_mem [OF f] by auto
  then obtain stamps where "(m, stamps) \<in> set (requestTimes r)"
    "c = in_window config now stamps"
    by auto
  with f \<open>?P (m, c)\<close> show ?thesis
    by (auto simp add: checkRateLimit_def Let_def)
qed

lemma checkRateLimit_admitted:
  assumes "\<not> (\<exists>(m, stamps) \<in> set (requestTimes r).
             rateLimit_requests config \<le> int (length (in_window config now stamps)))"
  shows "checkRateLimit config now r =
       (None, r\<lparr>requestTimes := AList.update (defaultModel config)
          ((case map_of (requestTimes r) (defaultModel config) of
              None \<Rightarrow> []
            | Some stamps \<Rightarrow> in_window config now stamps) @ [now])
          (map (\<lambda>(m, stamps). (m, in_window config now stamps)) (requestTimes r))\<rparr>)"
proof -
  let ?cleaned = "map (\<lambda>(m, stamps). (m, in_window config now stamps)) (requestTimes r)"
  let ?P = "\<lambda>(m, stamps). int (length stamps) \<ge> rateLimit_requests config"
  from assms have "find ?P ?cleaned = None"
    by (auto simp: find_None_iff)
  moreover have "map_of ?cleaned = map_option (in_window config now) \<circ> map_of (requestTimes r)"
    by (rule map_of_map)
  ultimately show ?thesis
    by (simp add: checkRateLimit_def Let_def split: option.splits)
qed

text \<open>
  C6, as the code has it. On an initialized router:
  \<^item> if the list of some model holds at least \<open>rateLimit.requests\<close> times inside the
    window (later than \<open>now - window\<close>), \<open>generateResponse\<close> fails with "Rate limit
    exceeded for model <m>" for a model \<open>m\<close> that has reached the limit, and no call to
    the backend is made;
  \<^item> otherwise the request is admitted and \<open>now\<close> is appended to the list of the
    configured default model, and to no other list: every other model, the one selected
    for the request included, keeps its earlier times inside the window.
\<close>

theorem rate_limit_enforced:
  assumes "zai_ready r"
  shows "((\<exists>(m, stamps) \<in> set (requestTimes r).
             rateLimit_requests config \<le> int (length (in_window config now stamps))) \<longrightarrow>
          (\<exists>m stamps. (m, stamps) \<in> set (requestTimes r) \<and>
             rateLimit_requests config \<le> int (length (in_window config now stamps)) \<and>
             fst (generateResponse backend config request startTime now endTime r) =
               Inl (''Rate limit exceeded for model '' @ m)) \<and>
          zaiCalls (snd (generateResponse backend config request startTime now endTime r)) =
            zaiCalls r) \<and>
         (\<not> (\<exists>(m, stamps) \<in> set (requestTimes r).
             rateLimit_requests config \<le> int (length (in_window config now stamps))) \<longrightarrow>
          map_of (requestTimes
              (snd (generateResponse backend config request startTime now endTime r)))
            (defaultModel config) =
            Some ((case map_of (requestTimes r) (defaultModel config) of
                     None \<Rightarrow> []
                   | Some stamps \<Rightarrow> in_window config now stamps) @ [now]) \<and>
          (\<forall>m. m \<noteq> defaultModel config \<longrightarrow>
             map_of (requestTimes
                 (snd (generateResponse backend config request startTime now endTime r))) m =
             map_option (in_window config now) (map_of (requestTimes r) m)))"
proof (intro conjI impI)
  assume reached: "\<exists>(m, stamps) \<in> set (requestTimes r).
             rateLimit_requests config \<le> int (length (in_window config now stamps))"
  from checkRateLimit_reached [OF reached] obtain m stamps where
    mem: "(m, stamps) \<in> set (requestTimes r)"
    and lim: "rateLimit_requests config \<le> int (length (in_window config now stamps))"
    and chk: "checkRateLimit config now r =
       (Some (''Rate limit exceeded for model '' @ m),
        r\<lparr>requestTimes :=
            map (\<lambda>(m, stamps). (m, in_window config now stamps)) (requestTimes r)\<rparr>)"
    by blast
  note run = generateResponse_rejected [OF assms chk, of backend request startTime endTime]
  from mem lim run
  show "\<exists>m stamps. (m, stamps) \<in> set (requestTimes r) \<and>
             rateLimit_requests config \<le> int (length (in_window config now stamps)) \<and>
             fst (generateResponse backend config request startTime now endTime r) =
               Inl (''Rate limit exceeded for model '' @ m)"
    by auto
  from run
  show "zaiCalls (snd (generateResponse backend config request startTime now endTime r)) =
            zaiCalls r"
    by (simp add: count_error_def)
next
  assume free: "\<not> (\<exists>(m, stamps) \<in> set (requestTimes r).
             rateLimit_requests config \<le> int (length (in_window config now stamps)))"
  note chk = checkRateLimit_admitted [OF free]
  note run = generateResponse_requestTimes [OF assms chk, of backend request startTime endTime]
  have cleaned: "map_of (map (\<lambda>(m, stamps). (m, in_window config now stamps)) (requestTimes r)) =
      map_option (in_window config now) \<circ> map_of (requestTimes r)"
    by (rule map_of_map)
  show "map_of (requestTimes
              (snd (generateResponse backend config request startTime now endTime r)))
            (defaultModel config) =
            Some ((case map_of (requestTimes r) (defaultModel config) of
                     None \<Rightarrow> []
                   | Some stamps \<Rightarrow> in_window config now stamps) @ [now])"
    unfolding run by (simp add: update_conv')
  show "\<forall>m. m \<noteq> defaultModel config \<longrightarrow>
             map_of (requestTimes
                 (snd (generateResponse backend config request startTime now endTime r))) m =
             map_option (in_window config now) (map_of (requestTimes r) m)"
    unfolding run by (simp add: update_conv' cleaned)
qed

theorem rate_limit_enforced_witness:
  "zai_ready two_models \<and> zai_ready after_one_request \<and>
   requestTimes two_models = [] \<and>
   fst (generateResponse echo_backend tight_config eight_chars 1000 1000 1005 two_models) =
     Inr \<lparr>response_content = ''ok'',
          usage = \<lparr>promptTokens = 2, completionTokens = 1, totalTokens = 3\<rparr>,
          model = ''large'', finishReason = ''stop''\<rparr> \<and>
   map_of (requestTimes after_one_request) ''small'' = Some [1000] \<and>
   map_of (requestTimes after_one_request) ''large'' = None \<and>
   fst (generateResponse echo_backend tight_config eight_chars 2000 2001 2005
          after_one_request) = Inl ''Rate limit exceeded for model small'' \<and>
   zaiCalls (snd (generateResponse echo_backend tight_config eight_chars 2000 2001 2005
          after_one_request)) = zaiCalls after_one_request"
proof -
  have ready: "zai_ready two_models" "zai_ready after_one_request"
    by code_simp+
  have empty: "requestTimes two_models = []"
    by code_simp
  have answer:
    "fst (generateResponse echo_backend tight_config eight_chars 1000 1000 1005 two_models) =
     Inr \<lparr>response_content = ''ok'',
          usage = \<lparr>promptTokens = 2, completionTokens = 1, totalTokens = 3\<rparr>,
          model = ''large'', finishReason = ''stop''\<rparr>"
    by code_simp
  have stamps: "requestTimes after_one_request = [(''small'', [1000])]"
    by code_simp
  have rejected:
    "fst (generateResponse echo_backend tight_config eight_chars 2000 2001 2005
          after_one_request) = Inl ''Rate limit exceeded for model small''"
    by code_simp
  have free: "\<not> (\<exists>(m, stamps) \<in> set (requestTimes two_models).
      rateLimit_requests tight_config \<le> int (length (in_window tight_config 1000 stamps)))"
    by (simp add: empty)
  have reached: "\<exists>(m, stamps) \<in> set (requestTimes after_one_request).
      rateLimit_requests tight_config \<le> int (length (in_window tight_config 2001 stamps))"
    by (simp add: stamps tight_config_def plain_config_def in_window_def)
  from rate_limit_enforced [OF ready(1), of tight_config 1000 echo_backend eight_chars
      1000 1005] free
  have admitted: "map_of (requestTimes after_one_request) ''small'' = Some [1000] \<and>
      map_of (requestTimes after_one_request) ''large'' = None"
    by (simp add: after_one_request_def empty tight_config_def plain_config_def)
  from rate_limit_enforced [OF ready(2), of tight_config 2001 echo_backend eight_chars
      2000 2005] reached
  have "zaiCalls (snd (generateResponse echo_backend tight_config eight_chars 2000 2001 2005
          after_one_request)) = zaiCalls after_one_request"
    by blast
  with ready empty answer admitted rejected show ?thesis by simp
qed

text \<open>
  C6, as the claim states it, fails in its last part. The request below is admitted and is
  served by \<open>large\<close>, the model selected for it, yet the only list that records it is the
  one of the default model \<open>small\<close>; \<open>large\<close> has no entry at all. \<open>checkRateLimit\<close> runs
  before \<open>selectModel\<close> and takes no model: it always records under \<open>config.defaultModel\<close>.
\<close>

theorem request_counted_against_default_counterexample:
  "fst (generateResponse echo_backend plain_config eight_chars 1000 1000 1005 two_models) =
     Inr \<lparr>response_content = ''ok'',
          usage = \<lparr>promptTokens = 2, completionTokens = 1, totalTokens = 3\<rparr>,
          model = ''large'', finishReason = ''stop''\<rparr> \<and>
   requestTimes (snd (generateResponse echo_backend plain_config eight_chars 1000 1000 1005
     two_models)) = [(''small'', [1000])] \<and>
   map_of (requestTimes (snd (generateResponse echo_backend plain_config eight_chars 1000 1000
     1005 two_models))) ''large'' = None"
  by code_simp

section \<open>Orchestrator: invariants of the scheduler\<close>

lemma executeTask_slots:
  "slots_bounded k st \<Longrightarrow> length (runningTasks st) < k \<Longrightarrow> slots_bounded k (executeTask taskId st)"
  by (auto simp add: slots_bounded_def executeTask_def split: option.splits)

lemma processNextTask_slots:
  "slots_bounded k st \<Longrightarrow> slots_bounded k (processNextTask k st)"
  by (auto simp add: processNextTask_def executeTask_slots split: option.splits)

lemma executeTask_settled_slots:
  "slots_bounded k st \<Longrightarrow> slots_bounded k (executeTask_settled k taskId t settled st)"
proof -
  assume inv: "slots_bounded k st"
  have "length (removeAll taskId (runningTasks st)) \<le> k"
    using inv order_trans [OF length_removeAll_less_eq [of taskId "runningTasks st"]]
    by (auto simp add: slots_bounded_def)
  with inv have "slots_bounded k (st\<lparr>tasks := ts, runningTasks := removeAll taskId (runningTasks st)\<rparr>)" for ts
    by (auto simp add: slots_bounded_def distinct_removeAll)
  then show ?thesis
    by (simp add: executeTask_settled_def Let_def processNextTask_slots)
qed

lemma submitTask_slots:
  "slots_bounded k st \<Longrightarrow> slots_bounded k (snd (submitTask k t st))"
proof -
  assume inv: "slots_bounded k st"
  then have "slots_bounded k (st\<lparr>tasks := ts\<rparr>)" for ts by (simp add: slots_bounded_def)
  then show ?thesis
    using inv by (auto simp add: submitTask_def Let_def intro!: executeTask_slots)
qed

lemma cancelTask_slots:
  "slots_bounded k st \<Longrightarrow> slots_bounded k (snd (cancelTask taskId st))"
  by (auto simp add: cancelTask_def slots_bounded_def split: option.splits)

lemma step_slots: "slots_bounded k st \<Longrightarrow> slots_bounded k (step k st e)"
proof (cases e)
  case (Submit t)
  assume "slots_bounded k st"
  then show ?thesis using Submit by (simp add: step_def submitTask_slots)
next
  case (Settle taskId settled)
  assume inv: "slots_bounded k st"
  then have "slots_bounded k (st\<lparr>suspended := s\<rparr>)" for s by (simp add: slots_bounded_def)
  then show ?thesis using Settle inv
    by (auto simp add: step_def executeTask_settled_slots split: option.splits)
next
  case (Cancel taskId)
  assume "slots_bounded k st"
  then show ?thesis using Cancel by (simp add: step_def cancelTask_slots)
qed

lemma run_snoc: "run k (es @ [e]) = step k (run k es) e"
  by (simp add: run_def)

lemma run_slots: "slots_bounded k (run k es)"
proof (induction es rule: rev_induct)
  case Nil
  then show ?case by (simp add: run_def new_orchestrator_def slots_bounded_def)
next
  case (snoc e es)
  then show ?case by (simp add: run_snoc step_slots)
qed


lemma executeTask_keys:
  "distinct (map fst (tasks st)) \<Longrightarrow> distinct (map fst (tasks (executeTask taskId st)))"
  by (simp add: executeTask_def distinct_update split: option.splits)

lemma processNextTask_keys:
  "distinct (map fst (tasks st)) \<Longrightarrow> distinct (map fst (tasks (processNextTask k st)))"
  by (simp add: processNextTask_def executeTask_keys split: option.splits prod.splits)

lemma step_keys:
  assumes "distinct (map fst (tasks st))"
  shows "distinct (map fst (tasks (step k st e)))"
proof (cases e)
  case (Submit t)
  from assms have "distinct (map fst (tasks (st\<lparr>tasks := AList.update (task_id t) t (tasks st)\<rparr>)))"
    by (simp add: distinct_update)
  from this executeTask_keys [OF this] assms Submit show ?thesis
    by (simp add: step_def submitTask_def Let_def)
next
  case (Settle taskId settled)
  have "distinct (map fst (tasks (processNextTask k
      (st\<lparr>suspended := s, tasks := AList.update taskId v (tasks st), runningTasks := r\<rparr>))))" for s v r
    using assms by (intro processNextTask_keys) (simp add: distinct_update)
  with assms Settle show ?thesis
    by (simp add: step_def executeTask_settled_def Let_def split: option.splits)
next
  case (Cancel taskId)
  with assms show ?thesis
    by (simp add: step_def cancelTask_def distinct_update split: option.splits)
qed

lemma run_keys: "distinct (map fst (tasks (run k es)))"
proof (induction es rule: rev_induct)
  case Nil
  then show ?case by (simp add: run_def new_orchestrator_def)
next
  case (snoc e es)
  then show ?case by (simp add: run_snoc step_keys)
qed

lemma executeTask_marks:
  "in_progress_running st \<Longrightarrow> in_progress_running (executeTask taskId st)"
  by (auto simp add: in_progress_running_def executeTask_def update_conv'
      split: option.splits)

lemma processNextTask_marks:
  "in_progress_running st \<Longrightarrow> in_progress_running (processNextTask k st)"
  by (auto simp add: processNextTask_def executeTask_marks split: option.splits)

lemma executeTask_settled_marks:
  assumes "in_progress_running st"
  shows "in_progress_running (executeTask_settled k taskId t settled st)"
proof -
  have "in_progress_running
      (st\<lparr>tasks := AList.update taskId (t\<lparr>status := s, result := r\<rparr>) (tasks st),
          runningTasks := removeAll taskId (runningTasks st)\<rparr>)"
    if "s \<noteq> in_progress" for s r
    using assms that
    by (auto simp add: in_progress_running_def update_conv')
  then show ?thesis
    by (cases settled) (simp_all add: executeTask_settled_def Let_def processNextTask_marks)
qed

lemma submitTask_marks:
  assumes "in_progress_running st" and "status t \<noteq> in_progress"
  shows "in_progress_running (snd (submitTask k t st))"
proof -
  have "in_progress_running (st\<lparr>tasks := AList.update (task_id t) t (tasks st)\<rparr>)"
    using assms by (auto simp add: in_progress_running_def update_conv')
  then show ?thesis
    using assms(1) by (auto simp add: submitTask_def Let_def executeTask_marks)
qed

lemma cancelTask_marks:
  "in_progress_running st \<Longrightarrow> in_progress_running (snd (cancelTask taskId st))"
  by (auto simp add: cancelTask_def in_progress_running_def update_conv'
      split: option.splits)

lemma step_marks:
  assumes "in_progress_running st" and "submitted_idle e"
  shows "in_progress_running (step k st e)"
proof (cases e)
  case (Submit t)
  with assms show ?thesis by (simp add: step_def submitTask_marks submitted_idle_def)
next
  case (Settle taskId settled)
  from assms(1) have "in_progress_running (st\<lparr>suspended := s\<rparr>)" for s
    by (simp add: in_progress_running_def)
  with Settle assms(1) show ?thesis
    by (auto simp add: step_def executeTask_settled_marks split: option.splits)
next
  case (Cancel taskId)
  with assms show ?thesis by (simp add: step_def cancelTask_marks)
qed

lemma run_marks: "list_all submitted_idle es \<Longrightarrow> in_progress_running (run k es)"
proof (induction es rule: rev_induct)
  case Nil
  then show ?case by (simp add: run_def new_orchestrator_def in_progress_running_def)
next
  case (snoc e es)
  then show ?case by (simp add: run_snoc step_marks)
qed

lemma count_le_running:
  assumes "in_progress_running st" and d: "distinct (map fst (tasks st))"
  shows "count_in_progress st \<le> length (runningTasks st)"
proof -
  let ?P = "\<lambda>(taskId, t). status t = in_progress"
  let ?ids = "map fst (filter ?P (tasks st))"
  from d have "distinct ?ids" by (rule distinct_map_filter)
  then have "card (set ?ids) = length ?ids" by (rule distinct_card)
  moreover have "set ?ids \<subseteq> set (runningTasks st)"
  proof
    fix taskId assume "taskId \<in> set ?ids"
    then obtain t where "(taskId, t) \<in> set (tasks st)" "status t = in_progress" by auto
    with d have "map_of (tasks st) taskId = Some t" "status t = in_progress" by auto
    with assms(1) show "taskId \<in> set (runningTasks st)"
      by (auto simp add: in_progress_running_def)
  qed
  then have "card (set ?ids) \<le> card (set (runningTasks st))"
    by (simp add: card_mono)
  moreover have "card (set (runningTasks st)) \<le> length (runningTasks st)" by (rule card_length)
  ultimately have "length ?ids \<le> length (runningTasks st)" by linarith
  then show ?thesis by (simp add: count_in_progress_def)
qed

lemma status_of_executeTask:
  "status_of (executeTask taskId st) other =
     (if other = taskId \<and> map_of (tasks st) taskId \<noteq> None \<and> taskId \<notin> set (runningTasks st)
      then Some in_progress else status_of st other)"
  by (auto simp add: status_of_def executeTask_def update_conv' split: option.splits)


















lemma processNextTask_checks_dependencies:
  assumes "distinct (map fst (tasks st))" and "status_of st taskId = Some pending"
    and "status_of (processNextTask k st) taskId = Some in_progress"
  shows "\<exists>t. map_of (tasks st) taskId = Some t \<and> dependenciesMet (tasks st) t"
proof -
  let ?P = "\<lambda>(taskId, t). status t = pending \<and> taskId \<notin> set (runningTasks st) \<and>
                                   dependenciesMet (tasks st) t"
  from assms(2,3) have moved: "processNextTask k st \<noteq> st" by auto
  then obtain a where found: "find ?P (tasks st) = Some a"
    by (auto simp add: processNextTask_def split: if_splits option.splits)
  obtain started t where a: "a = (started, t)" by (cases a)
  from moved found a have run: "processNextTask k st = executeTask started st"
    by (auto simp add: processNextTask_def split: if_splits)
  from assms(2,3) have "started = taskId"
    unfolding run by (auto simp add: status_of_executeTask split: if_splits)
  with find_Some_mem [OF found] a assms(1) show ?thesis by auto
qed

section \<open>Orchestrator: dependencies\<close>

text \<open>
  C1 fails on the immediate path of \<open>submitTask\<close>. With three slots, \<open>a\<close> is submitted
  and starts; \<open>b\<close>, which declares the dependency \<open>a\<close>, is submitted while \<open>a\<close> is still
  in progress, and starts at once: \<open>submitTask\<close> tests only the number of running tasks.
  \<open>processNextTask\<close>, the other path into \<open>executeTask\<close>, does test the dependencies
  (lemma \<open>processNextTask_checks_dependencies\<close>).
\<close>

theorem submitTask_skips_dependency_check:
  "dependencies task_b = Some [''a''] \<and>
   status_of (run 3 [Submit task_a, Submit task_b]) ''a'' = Some in_progress \<and>
   status_of (run 3 [Submit task_a, Submit task_b]) ''b'' = Some in_progress \<and>
   \<not> dependenciesMet (tasks (run 3 [Submit task_a, Submit task_b])) task_b"
  by code_simp

section \<open>Orchestrator: status transitions\<close>




section \<open>Orchestrator: the concurrency ceiling\<close>

text \<open>
  C3, as the code has it. After any sequence of submissions, cancellations and settled
  executions, \<open>runningTasks\<close> holds at most \<open>maxConcurrentTasks\<close> ids; and if no task was
  submitted with its status already set to in_progress, the number of tasks whose status
  is in_progress is at most \<open>maxConcurrentTasks\<close> as well.
\<close>

theorem concurrency_ceiling:
  "length (runningTasks (run k es)) \<le> k \<and>
   (list_all submitted_idle es \<longrightarrow> count_in_progress (run k es) \<le> k)"
proof -
  have a: "length (runningTasks (run k es)) \<le> k"
    using run_slots [of k es] by (simp add: slots_bounded_def)
  have "count_in_progress (run k es) \<le> k" if "list_all submitted_idle es"
    using count_le_running [OF run_marks [OF that, of k] run_keys [of k es]] a by simp
  with a show ?thesis by blast
qed

theorem concurrency_ceiling_witness:
  "list_all submitted_idle [Submit task_a, Submit task_b, Settle ''a'' (Resolved finished)] \<and>
   count_in_progress (run 1 [Submit task_a, Submit task_b]) = 1 \<and>
   count_in_progress (run 1 [Submit task_a, Submit task_b,
     Settle ''a'' (Resolved finished)]) = 1 \<and>
   length (runningTasks (run 1 [Submit task_a, Submit task_b,
     Settle ''a'' (Resolved finished)])) \<le> 1 \<and>
   count_in_progress (run 1 [Submit task_a, Submit task_b,
     Settle ''a'' (Resolved finished)]) \<le> 1"
proof -
  have h: "list_all submitted_idle
      [Submit task_a, Submit task_b, Settle ''a'' (Resolved finished)]"
    by code_simp
  have c1: "count_in_progress (run 1 [Submit task_a, Submit task_b]) = 1"
    by code_simp
  have c2: "count_in_progress (run 1 [Submit task_a, Submit task_b,
     Settle ''a'' (Resolved finished)]) = 1"
    by code_simp
  from concurrency_ceiling [of 1 "[Submit task_a, Submit task_b,
     Settle ''a'' (Resolved finished)]"] h c1 c2
  show ?thesis by simp
qed

text \<open>
  C3, as the claim states it, fails: \<open>submitTask\<close> stores the task as it is given, status
  included. With one slot taken by \<open>a\<close>, submitting \<open>c\<close>, whose status field already says
  in_progress, leaves two tasks with status in_progress.
\<close>

theorem submitted_in_progress_counterexample:
  "status task_c = in_progress \<and>
   length (runningTasks (run 1 [Submit task_a, Submit task_c])) = 1 \<and>
   count_in_progress (run 1 [Submit task_a, Submit task_c]) = 2"
  by code_simp

end
